theory Spec2Isabelle
  imports Main "HOL-Library.Char_ord" "HOL-Library.List_Lexorder" "HOL-Library.Word"
begin

section \<open>sdcv: dictionary resolution and the session loop of \<open>main\<close>\<close>

text \<open>
  A shallow embedding of \<^verbatim>\<open>src/sdcv.cpp\<close>. The file holds \<^verbatim>\<open>main\<close> and
  \<^verbatim>\<open>list_dicts\<close>. What they call outside the C++ standard library lives elsewhere:
  \<^verbatim>\<open>DictInfo::load_from_ifo_file\<close>, \<^verbatim>\<open>stdio_getline\<close>, \<^verbatim>\<open>Library\<close>,
  \<^verbatim>\<open>IReadLine\<close> and GLib enter the model as parameters, and \<^verbatim>\<open>for_each_file\<close> is
  written down from its description over a parameter that enumerates a directory.
\<close>

subsection \<open>\<^verbatim>\<open>std::map<std::string, std::string>\<close>\<close>

text \<open>
  The map \<^verbatim>\<open>bookname_to_ifo\<close> is kept as the list of its entries in iteration order,
  that is with strictly increasing keys. \<^verbatim>\<open>std::string\<close> compares bytewise and
  lexicographically, which is the order of \<^typ>\<open>char list\<close> given by the two imported
  library theories.
\<close>

type_synonym std_map = "(string \<times> string) list"

definition std_map_wf :: "std_map \<Rightarrow> bool" where
  "std_map_wf m = sorted_wrt (<) (map fst m)"

text \<open>\<^verbatim>\<open>m[k] = v\<close>: overwrite the entry of \<open>k\<close>, or insert it at its place.\<close>

fun map_assign :: "string \<Rightarrow> string \<Rightarrow> std_map \<Rightarrow> std_map" where
  "map_assign k v [] = [(k, v)]"
| "map_assign k v ((k', v') # m) =
     (if k < k' then (k, v) # (k', v') # m
      else if k = k' then (k, v) # m
      else (k', v') # map_assign k v m)"

text \<open>
  Exceptions. \<^verbatim>\<open>m.at(k)\<close> throws \<^verbatim>\<open>std::out_of_range\<close> when \<open>k\<close> is no key of
  \<open>m\<close>. The exception object holds nothing but the library's message for
  \<^verbatim>\<open>map::at\<close>; the key is not part of it. The spec calls this failure
  \<open>UnknownDictionaryError\<close>.
\<close>

datatype exn = Std_out_of_range

fun map_at :: "std_map \<Rightarrow> string \<Rightarrow> exn + string" where
  "map_at [] k = Inl Std_out_of_range"
| "map_at ((k', v') # m) k = (if k = k' then Inr v' else map_at m k)"

subsection \<open>Selection: lines 159 to 188 of \<^verbatim>\<open>main\<close>\<close>

text \<open>
  The inner loop of lines 162 to 166 walks the null-terminated array of \<^verbatim>\<open>-u\<close>
  arguments until one equals the bookname; \<open>reached_end\<close> is the test
  \<^verbatim>\<open>*p == nullptr\<close> of line 167.
\<close>

fun reached_end :: "string \<Rightarrow> string list \<Rightarrow> bool" where
  "reached_end x [] = True"
| "reached_end x (p # ps) = (if x = p then False else reached_end x ps)"

text \<open>Lines 161 to 170: the loop over the entries of the map, in key order.\<close>

fun disable_loop :: "std_map \<Rightarrow> string list \<Rightarrow> string list \<Rightarrow> string list" where
  "disable_loop [] use_dict_list disable_list = disable_list"
| "disable_loop (x # m) use_dict_list disable_list =
     disable_loop m use_dict_list
       (if reached_end (fst x) use_dict_list then disable_list @ [snd x] else disable_list)"

text \<open>
  Lines 173 to 177 and 183 to 185: \<^verbatim>\<open>order_list.push_back(bookname_to_ifo.at(name))\<close>
  for each name in turn. The first absent name throws, and the names after it are
  not looked at.
\<close>

fun order_loop :: "std_map \<Rightarrow> string list \<Rightarrow> string list \<Rightarrow> exn + string list" where
  "order_loop m [] order_list = Inr order_list"
| "order_loop m (p # ps) order_list =
     (case map_at m p of
        Inl e \<Rightarrow> Inl e
      | Inr ifo \<Rightarrow> order_loop m ps (order_list @ [ifo]))"

text \<open>
  The result is the pair of \<^verbatim>\<open>main\<close>'s two locals \<open>(order_list, disable_list)\<close> as
  line 196 hands them to the backend; the spec calls them \<open>orderedUse\<close> and
  \<open>disabled\<close>. \<open>use_dict_list\<close> is \<open>None\<close> for the null pointer (no \<^verbatim>\<open>-u\<close> on the command
  line). \<open>ordering_file\<close> is what the file system gives for
  \<^verbatim>\<open>$HOME/.sdcv_ordering\<close>: \<open>None\<close> when \<^verbatim>\<open>fopen\<close> returns null, and otherwise
  the successive lines for which \<^verbatim>\<open>stdio_getline\<close> returns true.
\<close>

definition resolve_selection ::
  "std_map \<Rightarrow> string list option \<Rightarrow> string list option \<Rightarrow> exn + string list \<times> string list" where
  "resolve_selection bookname_to_ifo use_dict_list ordering_file =
     (case use_dict_list of
        Some ps \<Rightarrow>
          (let disable_list = disable_loop bookname_to_ifo ps [] in
           case order_loop bookname_to_ifo ps [] of
             Inl e \<Rightarrow> Inl e
           | Inr order_list \<Rightarrow>
               Inr (order_list, disable_list))
      | None \<Rightarrow>
          (case ordering_file of
             None \<Rightarrow> Inr ([], [])
           | Some lines \<Rightarrow>
               (case order_loop bookname_to_ifo lines [] of
                  Inl e \<Rightarrow> Inl e
                | Inr order_list \<Rightarrow>
                    Inr (order_list, []))))"

subsection \<open>Collaborators, environment, command line\<close>

text \<open>
  \<^verbatim>\<open>DictInfo\<close> (declared in \<^verbatim>\<open>libwrapper.hpp\<close>): the three members that
  \<^verbatim>\<open>sdcv.cpp\<close> reads after \<^verbatim>\<open>load_from_ifo_file\<close> has returned true. The word
  count is a 32-bit value.
\<close>

record dict_info =
  bookname :: string
  ifo_file_name :: string
  wordcount :: "32 word"

text \<open>
  What a run does that can be observed from outside, in the order it happens: the
  program's own output, and each call into the backend or the line reader together
  with what the call returned.
\<close>

datatype event =
    Stdout string
  | Stderr string
  | Printf_dict string int
  | Lib_load "bool \<times> bool \<times> bool" "string list" "string list" "string list"
  | Process_phrase string "bool option" bool
  | Io_read "string option"

text \<open>
  The code behind the calls is not in \<^verbatim>\<open>sdcv.cpp\<close>, so each is a parameter.
  \<open>'w\<close> is the state these calls read and change (the loaded backend, the terminal).
  \<^item> \<open>enumerate_files dir suffix\<close>: the files under \<open>dir\<close> that
    \<^verbatim>\<open>for_each_file\<close> visits, in its order;
  \<^item> \<open>load_from_ifo_file fname\<close>: \<open>None\<close> when the method returns false;
  \<^item> \<open>lib_load\<close>: the constructor \<^verbatim>\<open>Library(utf8_input, utf8_output, colorize)\<close>
    followed by \<^verbatim>\<open>lib.load(dicts_dir_list, order_list, disable_list)\<close>;
  \<^item> \<open>process_phrase phrase force\<close>: \<open>force\<close> is \<open>None\<close> at the call of line 208,
    which leaves the third argument to the declaration's default;
  \<^item> \<open>io_read\<close>: \<^verbatim>\<open>io->read(prompt, phrase)\<close>, \<open>None\<close> when it returns false.
  Exceptions thrown inside these calls are not modelled.
\<close>

record 'w collab =
  enumerate_files :: "string \<Rightarrow> string \<Rightarrow> string list"
  load_from_ifo_file :: "string \<Rightarrow> dict_info option"
  utf8_to_locale_ign_err :: "string \<Rightarrow> string"
  lib_load :: "bool \<times> bool \<times> bool \<Rightarrow> string list \<Rightarrow> string list \<Rightarrow> string list \<Rightarrow> 'w \<Rightarrow> 'w"
  process_phrase :: "string \<Rightarrow> bool option \<Rightarrow> 'w \<Rightarrow> bool \<times> 'w"
  io_read :: "'w \<Rightarrow> string option \<times> 'w"

text \<open>
  The process environment. \<open>fopen_lines path\<close> is \<open>None\<close> when
  \<^verbatim>\<open>fopen(path, "r")\<close> returns null, else the lines \<^verbatim>\<open>stdio_getline\<close> yields.
  \<open>g_mkdir_failed path\<close> is \<open>Some (strerror errno)\<close> when \<^verbatim>\<open>g_mkdir\<close> returns -1
  with \<^verbatim>\<open>errno\<close> other than \<^verbatim>\<open>EEXIST\<close>. \<open>map_at_what\<close> is the text that \<^verbatim>\<open>what()\<close>
  returns for the exception of \<^verbatim>\<open>map::at\<close>: one string fixed by the C++ library,
  whatever the key was. \<open>gVersion\<close> is the macro \<^verbatim>\<open>VERSION\<close> of \<^verbatim>\<open>config.h\<close>.
\<close>

record env =
  getenv_STARDICT_DATA_DIR :: "string option"
  getenv_HOME :: "string option"
  g_get_home_dir :: string
  fopen_lines :: "string \<Rightarrow> string list option"
  g_mkdir_failed :: "string \<Rightarrow> string option"
  map_at_what :: string
  gVersion :: string

text \<open>The variables that \<^verbatim>\<open>g_option_context_parse\<close> fills in (lines 74 to 81).\<close>

record options =
  show_version :: bool
  show_list_dicts :: bool
  use_dict_list :: "string list option"
  non_interactive :: bool
  utf8_output :: bool
  utf8_input :: bool
  opt_data_dir :: "string option"
  colorize :: bool

text \<open>
  The outcome of line 109: either \<open>parse_res\<close> is false and \<^verbatim>\<open>error->message\<close> is
  set, or the options are filled in and the rest of the command line,
  \<^verbatim>\<open>argv[optind]\<close> up to \<^verbatim>\<open>argv[argc - 1]\<close>, is the list of words.
\<close>

datatype cmdline = Parse_failed string | Parsed options "string list"

datatype exit_status = EXIT_SUCCESS | EXIT_FAILURE

definition G_DIR_SEPARATOR :: string where
  "G_DIR_SEPARATOR = ''/''"

definition newline :: string where
  "newline = [CHR 0x0A]"

text \<open>
  The messages, with \<^verbatim>\<open>_( )\<close> taken as the identity (no translation catalogue
  loaded).
\<close>

definition version_line :: "string \<Rightarrow> string" where
  "version_line v = ''Console version of Stardict, version '' @ v @ newline"

definition invalid_arguments :: "string \<Rightarrow> string" where
  "invalid_arguments msg = ''Invalid command line arguments: '' @ msg @ newline"

definition list_header :: string where
  "list_header = ''Dictionary's name   Word count'' @ newline"

definition no_words :: string where
  "no_words = ''There are no words/phrases to translate.'' @ newline"

definition internal_error :: "string \<Rightarrow> string" where
  "internal_error what = ''Internal error: '' @ what @ newline"

definition g_mkdir_message :: "string \<Rightarrow> string" where
  "g_mkdir_message err = ''g_mkdir failed: '' @ err @ newline"

subsection \<open>The catalog: lines 149 to 157, and \<^verbatim>\<open>list_dicts\<close>\<close>

text \<open>
  Modelled from the spec: \<^verbatim>\<open>for_each_file\<close> (\<^verbatim>\<open>utils.hpp\<close>, not part of
  \<^verbatim>\<open>sdcv.cpp\<close>), called with an empty order list and an empty disable list. The spec:
  it "enumerates metadata files under each directory, in directory order, then in
  enumerator-defined order within a directory", and hands each to the callback.
  The callbacks of \<^verbatim>\<open>sdcv.cpp\<close> ignore their second argument.
\<close>

definition for_each_file ::
  "'w collab \<Rightarrow> string list \<Rightarrow> string \<Rightarrow> (string \<Rightarrow> 'a \<Rightarrow> 'a) \<Rightarrow> 'a \<Rightarrow> 'a" where
  "for_each_file C dirs_list suff f acc =
     fold f (concat (map (\<lambda>dir. enumerate_files C dir suff) dirs_list)) acc"

text \<open>The lambda of lines 151 to 157.\<close>

definition catalog_callback :: "'w collab \<Rightarrow> string \<Rightarrow> std_map \<Rightarrow> std_map" where
  "catalog_callback C fname m =
     (case load_from_ifo_file C fname of
        None \<Rightarrow> m
      | Some info \<Rightarrow> map_assign (bookname info) (ifo_file_name info) m)"

definition build_catalog :: "'w collab \<Rightarrow> string list \<Rightarrow> std_map" where
  "build_catalog C dicts_dir_list =
     for_each_file C dicts_dir_list ''.ifo'' (catalog_callback C) []"

text \<open>
  The lambda of lines 228 to 234, and \<^verbatim>\<open>list_dicts\<close>. Line 232 formats the word
  count with \<^verbatim>\<open>%d\<close>, which reads the 32 bits as a signed number.
\<close>

definition list_callback :: "'w collab \<Rightarrow> string \<Rightarrow> event list \<Rightarrow> event list" where
  "list_callback C filename out =
     (case load_from_ifo_file C filename of
        None \<Rightarrow> out
      | Some info \<Rightarrow>
          out @ [Printf_dict (utf8_to_locale_ign_err C (bookname info))
                   (sint (wordcount info))])"

definition list_dicts :: "'w collab \<Rightarrow> string list \<Rightarrow> event list" where
  "list_dicts C dicts_dir_list =
     for_each_file C dicts_dir_list ''.ifo'' (list_callback C) [Stdout list_header]"

subsection \<open>The session: lines 198 to 217\<close>

text \<open>
  Lines 200 to 203. The flag of the result says whether the loop ran to its end;
  false is the \<^verbatim>\<open>return EXIT_FAILURE\<close> of line 202.
\<close>

fun batch_loop ::
  "'w collab \<Rightarrow> bool \<Rightarrow> string list \<Rightarrow> event list \<Rightarrow> 'w \<Rightarrow> bool \<times> event list \<times> 'w" where
  "batch_loop C ni [] tr w = (True, tr, w)"
| "batch_loop C ni (q # qs) tr w =
     (case process_phrase C q (Some ni) w of
        (ok, w') \<Rightarrow>
          if \<not> ok then (False, tr @ [Process_phrase q (Some ni) ok], w')
          else batch_loop C ni qs (tr @ [Process_phrase q (Some ni) ok]) w')"

text \<open>
  Lines 207 to 211. The loop runs for as long as the reader yields lines, so it need
  not end: \<open>None\<close> is the run that never leaves it.
\<close>

partial_function (option) interactive_loop ::
  "'w collab \<Rightarrow> event list \<Rightarrow> 'w \<Rightarrow> (bool \<times> event list \<times> 'w) option" where
  "interactive_loop C tr w =
     (case io_read C w of
        (None, w1) \<Rightarrow> Some (True, tr @ [Io_read None], w1)
      | (Some phrase, w1) \<Rightarrow>
          (case process_phrase C phrase None w1 of
             (ok, w2) \<Rightarrow>
               if \<not> ok
               then Some (False, tr @ [Io_read (Some phrase), Process_phrase phrase None ok], w2)
               else interactive_loop C
                      (tr @ [Io_read (Some phrase), Process_phrase phrase None ok]) w2))"

text \<open>\<open>words \<noteq> []\<close> is the test \<^verbatim>\<open>optind < argc\<close>.\<close>

definition session ::
  "'w collab \<Rightarrow> bool \<Rightarrow> string list \<Rightarrow> 'w \<Rightarrow> (exit_status \<times> event list \<times> 'w) option" where
  "session C ni words w =
     (if words \<noteq> [] then
        (case batch_loop C ni words [] w of
           (completed, tr, w') \<Rightarrow>
             Some (if completed then EXIT_SUCCESS else EXIT_FAILURE, tr, w'))
      else if \<not> ni then
        (case interactive_loop C [] w of
           None \<Rightarrow> None
         | Some (completed, tr, w') \<Rightarrow>
             if completed then Some (EXIT_SUCCESS, tr @ [Stdout newline], w')
             else Some (EXIT_FAILURE, tr, w'))
      else Some (EXIT_SUCCESS, [Stderr no_words], w))"

subsection \<open>\<^verbatim>\<open>main\<close>\<close>

definition data_dir_of :: "env \<Rightarrow> options \<Rightarrow> string" where
  "data_dir_of E opts =
     (case opt_data_dir opts of
        None \<Rightarrow>
          (case getenv_STARDICT_DATA_DIR E of
             Some stardict_data_dir \<Rightarrow> stardict_data_dir
           | None \<Rightarrow> ''/usr/share/stardict/dic'')
      | Some d \<Rightarrow> d)"

definition homedir_of :: "env \<Rightarrow> string" where
  "homedir_of E = (case getenv_HOME E of Some h \<Rightarrow> h | None \<Rightarrow> g_get_home_dir E)"

definition dicts_dir_list_of :: "env \<Rightarrow> options \<Rightarrow> string list" where
  "dicts_dir_list_of E opts =
     [homedir_of E @ G_DIR_SEPARATOR @ ''.stardict'' @ G_DIR_SEPARATOR @ ''dic'',
      data_dir_of E opts]"

definition odering_cfg_file :: "env \<Rightarrow> string" where
  "odering_cfg_file E = homedir_of E @ G_DIR_SEPARATOR @ ''.sdcv_ordering''"

definition conf_dir :: "env \<Rightarrow> string" where
  "conf_dir E = g_get_home_dir E @ G_DIR_SEPARATOR @ ''.stardict''"

text \<open>Lines 190 to 193.\<close>

definition mkdir_events :: "env \<Rightarrow> event list" where
  "mkdir_events E =
     (case g_mkdir_failed E (conf_dir E) of
        None \<Rightarrow> []
      | Some err \<Rightarrow> [Stderr (g_mkdir_message err)])"

text \<open>
  The whole of \<^verbatim>\<open>main\<close>, from the return of the option parser on. The result is the
  exit status, the events in order, and the final state of the collaborators; \<open>None\<close>
  is a run that does not end. The function-try-block of lines 218 to 221 is the
  \<open>Inl\<close> branch: it prints the exception's \<^verbatim>\<open>what()\<close> and exits with failure.
\<close>

definition main ::
  "'w collab \<Rightarrow> env \<Rightarrow> cmdline \<Rightarrow> 'w \<Rightarrow> (exit_status \<times> event list \<times> 'w) option" where
  "main C E cl w =
     (case cl of
        Parse_failed msg \<Rightarrow> Some (EXIT_FAILURE, [Stderr (invalid_arguments msg)], w)
      | Parsed opts words \<Rightarrow>
          if show_version opts then
            Some (EXIT_SUCCESS, [Stdout (version_line (gVersion E))], w)
          else if show_list_dicts opts then
            Some (EXIT_SUCCESS, list_dicts C (dicts_dir_list_of E opts), w)
          else
            (case resolve_selection (build_catalog C (dicts_dir_list_of E opts))
                    (use_dict_list opts) (fopen_lines E (odering_cfg_file E)) of
               Inl e \<Rightarrow> Some (EXIT_FAILURE, [Stderr (internal_error (map_at_what E))], w)
             | Inr (ol, dl) \<Rightarrow>
                 (let flags = (utf8_input opts, utf8_output opts, colorize opts);
                      dirs = dicts_dir_list_of E opts;
                      pre = mkdir_events E @ [Lib_load flags dirs ol dl]
                  in case session C (non_interactive opts) words (lib_load C flags dirs ol dl w) of
                       None \<Rightarrow> None
                     | Some (status, tr, w') \<Rightarrow> Some (status, pre @ tr, w'))))"

subsection \<open>Runs of the two loops\<close>

text \<open>
  \<open>served C ni w qs\<close> follows the backend from state \<open>w\<close> through the lookups of the
  words \<open>qs\<close>, one after the other, as batch mode calls them; it gives the state
  reached when every one of them succeeds, and \<open>None\<close> as soon as one fails.
\<close>

fun served :: "'w collab \<Rightarrow> bool \<Rightarrow> 'w \<Rightarrow> string list \<Rightarrow> 'w option" where
  "served C ni w [] = Some w"
| "served C ni w (q # qs) =
     (case process_phrase C q (Some ni) w of
        (ok, w1) \<Rightarrow> if ok then served C ni w1 qs else None)"

definition served_events :: "bool \<Rightarrow> string list \<Rightarrow> event list" where
  "served_events ni qs = map (\<lambda>q. Process_phrase q (Some ni) True) qs"

text \<open>
  \<open>feeds C w phrases\<close> follows the collaborators from state \<open>w\<close> while the reader
  yields the given phrases one after the other and the lookup of each succeeds; it
  gives the state reached, and \<open>None\<close> if the collaborators do anything else.
\<close>

fun feeds :: "'w collab \<Rightarrow> 'w \<Rightarrow> string list \<Rightarrow> 'w option" where
  "feeds C w [] = Some w"
| "feeds C w (l # ls) =
     (case io_read C w of
        (None, w1) \<Rightarrow> None
      | (Some phrase, w1) \<Rightarrow>
          if phrase \<noteq> l then None
          else (case process_phrase C phrase None w1 of
                  (ok, w2) \<Rightarrow> if ok then feeds C w2 ls else None))"

definition fed_events :: "string list \<Rightarrow> event list" where
  "fed_events ls = concat (map (\<lambda>l. [Io_read (Some l), Process_phrase l None True]) ls)"

subsection \<open>Vocabulary of the statements\<close>

text \<open>
  The files that the callback of a \<^verbatim>\<open>for_each_file\<close> call over the given directories
  sees, in the order it sees them.
\<close>

definition visited :: "'w collab \<Rightarrow> string list \<Rightarrow> string list" where
  "visited C dirs_list = for_each_file C dirs_list ''.ifo'' (\<lambda>fname seen. seen @ [fname]) []"

text \<open>
  Among the files \<open>fs\<close>, in order, the descriptors of those that load and carry the
  bookname \<open>n\<close>.
\<close>

definition hits :: "'w collab \<Rightarrow> string \<Rightarrow> string list \<Rightarrow> dict_info list" where
  "hits C n fs = filter (\<lambda>info. bookname info = n) (List.map_filter (load_from_ifo_file C) fs)"

text \<open>
  Modelled from the spec: what the backend makes of the two lists it is loaded with
  (\<^verbatim>\<open>Library::load\<close>, in \<^verbatim>\<open>libwrapper\<close>, is not part of \<^verbatim>\<open>sdcv.cpp\<close>). The spec has the selection as an
  ordered use list and a disable list, and says of the case this file needs: "the
  Session Controller interprets an empty orderedUse with empty disabled as use entire
  catalog, in catalog order". So the dictionaries in use are those of the use list,
  in its order, followed by the remaining entries of the catalog in catalog order,
  the disabled ones left out.
\<close>

definition dictionaries_in_use :: "std_map \<Rightarrow> string list \<Rightarrow> string list \<Rightarrow> string list" where
  "dictionaries_in_use catalog ol dl =
     ol @ filter (\<lambda>path. path \<notin> set ol \<and> path \<notin> set dl) (map snd catalog)"

text \<open>Every entry of the map is a bookname with a file that loads under that bookname.\<close>

definition own_path :: "'w collab \<Rightarrow> std_map \<Rightarrow> bool" where
  "own_path C m \<longleftrightarrow>
     (\<forall>x \<in> set m. \<exists>info. load_from_ifo_file C (snd x) = Some info \<and> bookname info = fst x)"

subsection \<open>A small installation, for concrete runs\<close>

text \<open>
  Two dictionary directories. The user's holds one dictionary \<open>X\<close> and a file that
  does not load; the system's holds another \<open>X\<close> and a \<open>Y\<close>. The state of the
  collaborators is the list of lines still to come from the terminal; the lookup of
  \<open>dog\<close> fails and every other lookup succeeds.
\<close>

definition demo_collab :: "string list collab" where
  "demo_collab =
     \<lparr>enumerate_files = (\<lambda>dir suff.
          if dir = ''/h/.stardict/dic'' then [''/h/.stardict/dic/x.ifo'', ''/h/.stardict/dic/bad.ifo'']
          else if dir = ''/s'' then [''/s/x.ifo'', ''/s/y.ifo'']
          else []),
      load_from_ifo_file = (\<lambda>fname.
          if fname = ''/h/.stardict/dic/x.ifo''
          then Some \<lparr>bookname = ''X'', ifo_file_name = fname, wordcount = 10\<rparr>
          else if fname = ''/s/x.ifo''
          then Some \<lparr>bookname = ''X'', ifo_file_name = fname, wordcount = 20\<rparr>
          else if fname = ''/s/y.ifo''
          then Some \<lparr>bookname = ''Y'', ifo_file_name = fname, wordcount = 30\<rparr>
          else None),
      utf8_to_locale_ign_err = (\<lambda>str. str),
      lib_load = (\<lambda>flags dirs ol dl w. w),
      process_phrase = (\<lambda>phrase force w. (phrase \<noteq> ''dog'', w)),
      io_read = (\<lambda>w. case w of [] \<Rightarrow> (None, []) | l # ls \<Rightarrow> (Some l, ls))\<rparr>"

definition demo_env :: env where
  "demo_env =
     \<lparr>getenv_STARDICT_DATA_DIR = Some ''/s'',
      getenv_HOME = Some ''/h'',
      g_get_home_dir = ''/h'',
      fopen_lines = (\<lambda>path. None),
      g_mkdir_failed = (\<lambda>path. None),
      map_at_what = ''map::at'',
      gVersion = ''0.5.2''\<rparr>"

definition demo_options :: options where
  "demo_options =
     \<lparr>show_version = False, show_list_dicts = False, use_dict_list = None,
      non_interactive = False, utf8_output = False, utf8_input = False,
      opt_data_dir = None, colorize = False\<rparr>"

definition demo_map :: std_map where
  "demo_map = [(''A'', ''/a.ifo''), (''B'', ''/b.ifo''), (''C'', ''/c.ifo'')]"

section \<open>Facts about the map and the loops\<close>

lemma reached_end_iff: "reached_end x ps \<longleftrightarrow> x \<notin> set ps"
  by (induction ps) auto

lemma disable_loop_eq:
  "disable_loop m ps acc = acc @ map snd (filter (\<lambda>x. fst x \<notin> set ps) m)"
  by (induction m arbitrary: acc) (auto simp: reached_end_iff)

lemma map_at_eq:
  "map_at m k = (case map_of m k of None \<Rightarrow> Inl Std_out_of_range | Some v \<Rightarrow> Inr v)"
  by (induction m) auto

lemma order_loop_all_present:
  "\<forall>p \<in> set ps. map_of m p \<noteq> None \<Longrightarrow>
   order_loop m ps acc = Inr (acc @ map (\<lambda>p. the (map_of m p)) ps)"
  by (induction ps arbitrary: acc) (auto simp: map_at_eq split: option.splits)

lemma order_loop_some_absent:
  "\<exists>p \<in> set ps. map_of m p = None \<Longrightarrow> order_loop m ps acc = Inl Std_out_of_range"
  by (induction ps arbitrary: acc) (auto simp: map_at_eq split: option.splits)

lemma order_loop_Inr_subset:
  "order_loop m ps acc = Inr ol \<Longrightarrow> set ol \<subseteq> set acc \<union> {v. \<exists>p \<in> set ps. (p, v) \<in> set m}"
proof (induction ps arbitrary: acc)
  case Nil
  then show ?case by auto
next
  case (Cons p ps)
  from Cons.prems obtain v where v: "map_of m p = Some v"
    and rest: "order_loop m ps (acc @ [v]) = Inr ol"
    by (auto simp: map_at_eq split: option.splits)
  from v have "(p, v) \<in> set m" by (rule map_of_SomeD)
  with Cons.IH [OF rest] show ?case by auto
qed

lemma absent_iff: "(\<exists>p \<in> set ps. map_of m p = None) \<longleftrightarrow> \<not> set ps \<subseteq> fst ` set m"
  by (auto simp: map_of_eq_None_iff)

subsection \<open>Assignment keeps the map a map\<close>

lemma map_of_map_assign: "map_of (map_assign k v m) = (map_of m)(k \<mapsto> v)"
  by (induction m) (auto simp: fun_eq_iff)

lemma keys_map_assign: "fst ` set (map_assign k v m) = insert k (fst ` set m)"
  by (simp add: dom_map_of_conv_image_fst [symmetric] map_of_map_assign)

lemma set_map_assign: "set (map_assign k v m) \<subseteq> insert (k, v) (set m)"
  by (induction m) (auto split: if_splits)

lemma wf_Nil: "std_map_wf []"
  by (simp add: std_map_wf_def)

lemma wf_distinct_keys: "std_map_wf m \<Longrightarrow> distinct (map fst m)"
  by (simp add: std_map_wf_def strict_sorted_iff)

lemma wf_map_assign: "std_map_wf m \<Longrightarrow> std_map_wf (map_assign k v m)"
proof (induction m)
  case Nil
  then show ?case by (simp add: std_map_wf_def)
next
  case (Cons x m)
  obtain k' v' where x: "x = (k', v')" by (cases x)
  from Cons.prems have wf: "std_map_wf m" and lt: "\<forall>y \<in> fst ` set m. k' < y"
    by (auto simp: std_map_wf_def x)
  show ?case
  proof (cases "k < k'")
    case True
    with Cons.prems lt show ?thesis
      by (auto simp: std_map_wf_def x)
  next
    case False
    show ?thesis
    proof (cases "k = k'")
      case True
      with Cons.prems show ?thesis by (auto simp: std_map_wf_def x)
    next
      case ne: False
      with False have "k' < k" by auto
      with lt have "\<forall>y \<in> fst ` set (map_assign k v m). k' < y"
        by (simp add: keys_map_assign)
      with Cons.IH [OF wf] False ne show ?thesis
        by (auto simp: std_map_wf_def x)
    qed
  qed
qed

subsection \<open>The catalog as a fold over the visited files\<close>

lemma fold_snoc: "fold (\<lambda>x acc. acc @ [x]) xs ys = ys @ xs"
  by (induction xs arbitrary: ys) auto

lemma visited_eq:
  "visited C dirs_list = concat (map (\<lambda>dir. enumerate_files C dir ''.ifo'') dirs_list)"
  by (simp add: visited_def for_each_file_def fold_snoc)

lemma for_each_file_visited:
  "for_each_file C dirs_list ''.ifo'' f acc = fold f (visited C dirs_list) acc"
  by (simp add: visited_eq for_each_file_def)

lemma build_catalog_fold:
  "build_catalog C dirs_list = fold (catalog_callback C) (visited C dirs_list) []"
  by (simp add: build_catalog_def for_each_file_visited)

lemma hits_Cons:
  "hits C n (f # fs) =
     (case load_from_ifo_file C f of
        None \<Rightarrow> hits C n fs
      | Some i \<Rightarrow> if bookname i = n then i # hits C n fs else hits C n fs)"
  by (simp add: hits_def split: option.splits)

lemma hits_append: "hits C n (fs @ gs) = hits C n fs @ hits C n gs"
  by (simp add: hits_def List.map_filter_def)

lemma map_of_callback:
  "map_of (catalog_callback C f m) n =
     (case load_from_ifo_file C f of
        None \<Rightarrow> map_of m n
      | Some i \<Rightarrow> if bookname i = n then Some (ifo_file_name i) else map_of m n)"
  by (simp add: catalog_callback_def map_of_map_assign split: option.splits)

lemma map_of_fold_callback:
  "map_of (fold (catalog_callback C) fs m) n =
     (if hits C n fs = [] then map_of m n else Some (ifo_file_name (last (hits C n fs))))"
proof (induction fs arbitrary: m)
  case Nil
  show ?case by (simp add: hits_def)
next
  case (Cons f fs)
  show ?case
    by (simp add: Cons.IH map_of_callback hits_Cons split: option.splits)
qed

lemma wf_fold_callback:
  "std_map_wf m \<Longrightarrow> std_map_wf (fold (catalog_callback C) fs m)"
  by (induction fs arbitrary: m)
     (simp_all add: catalog_callback_def wf_map_assign split: option.splits)

lemma wf_build_catalog: "std_map_wf (build_catalog C dirs_list)"
  by (simp add: build_catalog_fold wf_fold_callback [OF wf_Nil])

subsection \<open>When the loader records the file's own path, paths are not shared\<close>

lemma own_path_Nil: "own_path C []"
  by (simp add: own_path_def)

lemma own_path_callback:
  assumes "\<forall>f i. load_from_ifo_file C f = Some i \<longrightarrow> ifo_file_name i = f"
    and "own_path C m"
  shows "own_path C (catalog_callback C f m)"
proof (cases "load_from_ifo_file C f")
  case None
  with assms(2) show ?thesis by (simp add: catalog_callback_def)
next
  case (Some i)
  with assms(1) have "ifo_file_name i = f" by blast
  with Some assms(2) set_map_assign [of "bookname i" f m] show ?thesis
    by (auto simp: catalog_callback_def own_path_def)
qed

lemma own_path_fold:
  assumes "\<forall>f i. load_from_ifo_file C f = Some i \<longrightarrow> ifo_file_name i = f"
  shows "own_path C m \<Longrightarrow> own_path C (fold (catalog_callback C) fs m)"
  by (induction fs arbitrary: m) (simp_all add: own_path_callback [OF assms])

lemma built_catalog_paths_distinct:
  assumes "\<forall>f i. load_from_ifo_file C f = Some i \<longrightarrow> ifo_file_name i = f"
  shows "distinct (map snd (build_catalog C dirs_list))"
proof -
  let ?m = "build_catalog C dirs_list"
  have own: "own_path C ?m"
    by (simp add: build_catalog_fold own_path_fold [OF assms own_path_Nil])
  have "distinct ?m"
    using wf_distinct_keys [OF wf_build_catalog]
    by (rule distinct_map [THEN iffD1, THEN conjunct1])
  moreover have "inj_on snd (set ?m)"
  proof (rule inj_onI)
    fix x y assume x: "x \<in> set ?m" and y: "y \<in> set ?m" and eq: "snd x = snd y"
    from own x obtain i where i: "load_from_ifo_file C (snd x) = Some i" "bookname i = fst x"
      unfolding own_path_def by blast
    from own y obtain j where j: "load_from_ifo_file C (snd y) = Some j" "bookname j = fst y"
      unfolding own_path_def by blast
    from i j eq have "fst x = fst y" by simp
    with eq show "x = y" by (simp add: prod_eq_iff)
  qed
  ultimately show ?thesis by (simp add: distinct_map)
qed

subsection \<open>The two lists of a selection\<close>

lemma resolved_lists_apart:
  assumes "resolve_selection m use ordering_file = Inr (ol, dl)"
  shows "set ol \<subseteq> snd ` set m \<and> (distinct (map snd m) \<longrightarrow> set ol \<inter> set dl = {})"
proof (cases use)
  case None
  with assms have dl: "dl = []"
    by (auto simp: resolve_selection_def split: option.splits sum.splits)
  from None assms have "ordering_file = None \<and> ol = [] \<or>
      (\<exists>ls. order_loop m ls [] = Inr ol)"
    by (auto simp: resolve_selection_def split: option.splits sum.splits)
  then have "set ol \<subseteq> snd ` set m"
    using order_loop_Inr_subset [of m _ "[]" ol] by force
  with dl show ?thesis by simp
next
  case (Some ps)
  with assms have ol: "order_loop m ps [] = Inr ol"
    and dl: "dl = map snd (filter (\<lambda>x. fst x \<notin> set ps) m)"
    by (auto simp: resolve_selection_def disable_loop_eq split: sum.splits)
  from order_loop_Inr_subset [OF ol]
  have sub: "set ol \<subseteq> {v. \<exists>p \<in> set ps. (p, v) \<in> set m}" by simp
  then have one: "set ol \<subseteq> snd ` set m" by force
  have "set ol \<inter> set dl = {}" if d: "distinct (map snd m)"
  proof (rule ccontr)
    assume "set ol \<inter> set dl \<noteq> {}"
    then obtain v where "v \<in> set ol" "v \<in> set dl" by blast
    with sub dl obtain p q where p: "p \<in> set ps" "(p, v) \<in> set m"
      and q: "q \<notin> set ps" "(q, v) \<in> set m"
      by auto
    from d have "inj_on snd (set m)" by (simp add: distinct_map)
    with p(2) q(2) have "(p, v) = (q, v)"
      by (rule_tac inj_onD [of snd "set m"]) simp_all
    with p(1) q(1) show False by simp
  qed
  with one show ?thesis by blast
qed

subsection \<open>The two loops of the session\<close>

lemma batch_loop_served:
  "served C ni w pre = Some w1 \<Longrightarrow>
   batch_loop C ni (pre @ rest) tr w = batch_loop C ni rest (tr @ served_events ni pre) w1"
proof (induction pre arbitrary: w tr)
  case Nil
  then show ?case by (simp add: served_events_def)
next
  case (Cons q pre)
  from Cons.prems obtain wa where
    pp: "process_phrase C q (Some ni) w = (True, wa)" and
    rest: "served C ni wa pre = Some w1"
    by (auto split: prod.splits if_splits)
  from pp have "batch_loop C ni ((q # pre) @ rest) tr w =
                  batch_loop C ni (pre @ rest) (tr @ [Process_phrase q (Some ni) True]) wa"
    by simp
  also have "\<dots> = batch_loop C ni rest
                      ((tr @ [Process_phrase q (Some ni) True]) @ served_events ni pre) w1"
    by (rule Cons.IH [OF rest])
  finally show ?case by (simp add: served_events_def)
qed

lemma batch_loop_fails:
  "process_phrase C q (Some ni) w1 = (False, w2) \<Longrightarrow>
   batch_loop C ni (q # rest) tr w1 = (False, tr @ [Process_phrase q (Some ni) False], w2)"
  by simp

lemma served_None_first_failure:
  "served C ni w qs = None \<Longrightarrow>
   \<exists>pre q rest w1 w2. qs = pre @ q # rest \<and> served C ni w pre = Some w1
      \<and> process_phrase C q (Some ni) w1 = (False, w2)"
proof (induction qs arbitrary: w)
  case Nil
  then show ?case by simp
next
  case (Cons q qs)
  obtain r wa where pp: "process_phrase C q (Some ni) w = (r, wa)"
    by (cases "process_phrase C q (Some ni) w")
  show ?case
  proof (cases r)
    case False
    with pp have "q # qs = [] @ q # qs \<and> served C ni w [] = Some w
        \<and> process_phrase C q (Some ni) w = (False, wa)"
      by simp
    then show ?thesis by blast
  next
    case True
    with pp Cons.prems have "served C ni wa qs = None" by simp
    from Cons.IH [OF this] obtain pre q' rest w1 w2 where
      split: "qs = pre @ q' # rest" and pre: "served C ni wa pre = Some w1"
      and fail: "process_phrase C q' (Some ni) w1 = (False, w2)"
      by blast
    from pp True pre have "served C ni w (q # pre) = Some w1" by simp
    with split fail have "q # qs = (q # pre) @ q' # rest \<and> served C ni w (q # pre) = Some w1
        \<and> process_phrase C q' (Some ni) w1 = (False, w2)"
      by simp
    then show ?thesis by blast
  qed
qed

lemma interactive_loop_feeds:
  "feeds C w ls = Some w1 \<Longrightarrow>
   interactive_loop C tr w = interactive_loop C (tr @ fed_events ls) w1"
proof (induction ls arbitrary: w tr)
  case Nil
  then show ?case by (simp add: fed_events_def)
next
  case (Cons l ls)
  from Cons.prems obtain wa wb where
    rd: "io_read C w = (Some l, wa)" and
    pp: "process_phrase C l None wa = (True, wb)" and
    rest: "feeds C wb ls = Some w1"
    by (auto split: prod.splits option.splits if_splits)
  have "interactive_loop C tr w =
          interactive_loop C (tr @ [Io_read (Some l), Process_phrase l None True]) wb"
    by (subst interactive_loop.simps) (simp add: rd pp)
  also have "\<dots> = interactive_loop C
      ((tr @ [Io_read (Some l), Process_phrase l None True]) @ fed_events ls) w1"
    by (rule Cons.IH [OF rest])
  finally show ?case by (simp add: fed_events_def)
qed

lemma mkdir_events_no_lookup: "Process_phrase q f r \<notin> set (mkdir_events E)"
  by (simp add: mkdir_events_def split: option.splits)

lemmas demo_defs =
  demo_collab_def demo_env_def demo_options_def demo_map_def
  dicts_dir_list_of_def homedir_of_def data_dir_of_def odering_cfg_file_def conf_dir_def
  G_DIR_SEPARATOR_def mkdir_events_def
  build_catalog_def for_each_file_def catalog_callback_def

section \<open>The claims\<close>

subsection \<open>C1: selection from an explicit allow-list\<close>

text \<open>
  C1. When every name given with \<^verbatim>\<open>-u\<close> is a key of the catalog, selection succeeds;
  \<open>order_list\<close> holds the catalog's path for each given name, in the given order and
  with repetitions kept; \<open>disable_list\<close> holds the paths of exactly the entries whose
  bookname is not among the given names (in key order). The result is the same
  whatever the ordering file holds, or whether it exists: the right-hand side does
  not mention it.
\<close>

theorem allow_list_selection:
  assumes "set ps \<subseteq> fst ` set m"
  shows "resolve_selection m (Some ps) ordering_file =
           Inr (map (\<lambda>p. the (map_of m p)) ps,
                map snd (filter (\<lambda>x. fst x \<notin> set ps) m))"
proof -
  from assms have "\<forall>p \<in> set ps. map_of m p \<noteq> None"
    by (auto simp: map_of_eq_None_iff)
  then show ?thesis
    by (simp add: resolve_selection_def disable_loop_eq order_loop_all_present)
qed

text \<open>C1 at a catalog of three, with a repeated name and an ordering file present.\<close>

theorem allow_list_selection_witness:
  "set [''C'', ''A'', ''C''] \<subseteq> fst ` set demo_map
   \<and> resolve_selection demo_map (Some [''C'', ''A'', ''C'']) (Some [''B'']) =
       Inr ([''/c.ifo'', ''/a.ifo'', ''/c.ifo''], [''/b.ifo''])"
  using allow_list_selection [of "[''C'', ''A'', ''C'']" demo_map "Some [''B'']"]
  by (simp add: demo_map_def)

subsection \<open>C2: selection from the ordering file\<close>

text \<open>
  C2, as the claim has it, fails on one point: it takes the non-empty lines of the
  file as the names. The loop of lines 183 to 185 has no test for an empty line. A
  file that lists \<open>B\<close> and \<open>A\<close> gives the two paths; the same file with an empty line
  between them makes the selection fail, since the empty line is looked up like any
  other and is no key of the catalog.
\<close>

theorem ordering_file_blank_line:
  "resolve_selection [(''A'', ''/a.ifo''), (''B'', ''/b.ifo'')] None (Some [''B'', ''A'']) =
     Inr ([''/b.ifo'', ''/a.ifo''], [])
   \<and> resolve_selection [(''A'', ''/a.ifo''), (''B'', ''/b.ifo'')] None (Some [''B'', '''', ''A'']) =
     Inl Std_out_of_range"
  by (simp add: resolve_selection_def)

text \<open>
  C2, amended. Without \<^verbatim>\<open>-u\<close> and with an ordering file that opens, every line the
  line reader yields, an empty one too, is looked up as a bookname, and its path is
  appended in file order; a line that is no key of the catalog makes the selection
  fail with the exception of \<^verbatim>\<open>map::at\<close>, and nothing is skipped.
\<close>

theorem ordering_file_selection:
  "resolve_selection m None (Some lines) =
     (if set lines \<subseteq> fst ` set m then Inr (map (\<lambda>l. the (map_of m l)) lines, [])
      else Inl Std_out_of_range)"
proof (cases "set lines \<subseteq> fst ` set m")
  case True
  then have "\<forall>p \<in> set lines. map_of m p \<noteq> None"
    by (auto simp: map_of_eq_None_iff)
  with True show ?thesis
    by (simp add: resolve_selection_def order_loop_all_present)
next
  case False
  then have "\<exists>p \<in> set lines. map_of m p = None"
    by (simp add: absent_iff)
  with False show ?thesis
    by (simp add: resolve_selection_def order_loop_some_absent)
qed

text \<open>
  C2, amended, on the spec's example, a file listing \<open>B\<close> then \<open>A\<close>, and on a file
  with a stale name.
\<close>

theorem ordering_file_selection_witness:
  "resolve_selection [(''A'', ''/a.ifo''), (''B'', ''/b.ifo'')] None (Some [''B'', ''A'']) =
     Inr ([''/b.ifo'', ''/a.ifo''], [])
   \<and> resolve_selection [(''A'', ''/a.ifo''), (''B'', ''/b.ifo'')] None (Some [''B'', ''Z'', ''A'']) =
     Inl Std_out_of_range"
  using ordering_file_selection [of "[(''A'', ''/a.ifo''), (''B'', ''/b.ifo'')]" "[''B'', ''A'']"]
    ordering_file_selection [of "[(''A'', ''/a.ifo''), (''B'', ''/b.ifo'')]" "[''B'', ''Z'', ''A'']"]
  by simp

subsection \<open>C3: batch mode\<close>

text \<open>
  C3. With at least one word on the command line the session ends, and what it does
  is fixed by what the lookups return, taken in command-line order from the state the
  session starts in. If the lookup of every word succeeds, the status is success, the
  events are these lookups in order, and the state is the one they lead to. If the
  words before \<open>q\<close> are looked up with success and the lookup of \<open>q\<close> then fails, the
  status is failure, the events end with that failed lookup, the state is the one it
  left, and none of the words after \<open>q\<close> is looked up. One of the two is always the
  case, so the status is success only if every lookup succeeds.
\<close>

theorem batch_stops_at_first_failure:
  assumes "words \<noteq> []"
  shows "(served C ni w words = Some w' \<longrightarrow>
            session C ni words w = Some (EXIT_SUCCESS, served_events ni words, w'))
       \<and> (words = pre @ q # rest \<and> served C ni w pre = Some w1
            \<and> process_phrase C q (Some ni) w1 = (False, w2) \<longrightarrow>
            session C ni words w =
              Some (EXIT_FAILURE, served_events ni pre @ [Process_phrase q (Some ni) False], w2))
       \<and> (served C ni w words = None \<longrightarrow>
            (\<exists>pre q rest w1 w2. words = pre @ q # rest \<and> served C ni w pre = Some w1
               \<and> process_phrase C q (Some ni) w1 = (False, w2)))"
proof -
  have all: "session C ni words w = Some (EXIT_SUCCESS, served_events ni words, w')"
    if "served C ni w words = Some w'"
    using assms batch_loop_served [OF that, of "[]" "[]"] by (simp add: session_def)
  have stop: "session C ni words w =
      Some (EXIT_FAILURE, served_events ni pre @ [Process_phrase q (Some ni) False], w2)"
    if "words = pre @ q # rest" "served C ni w pre = Some w1"
      "process_phrase C q (Some ni) w1 = (False, w2)"
  proof -
    have "batch_loop C ni (pre @ q # rest) [] w =
            batch_loop C ni (q # rest) ([] @ served_events ni pre) w1"
      by (rule batch_loop_served [OF that(2)])
    also have "\<dots> = (False, ([] @ served_events ni pre) @ [Process_phrase q (Some ni) False], w2)"
      by (rule batch_loop_fails [OF that(3)])
    finally show ?thesis
      using assms that(1) by (simp add: session_def)
  qed
  from all stop served_None_first_failure [of C ni w words] show ?thesis
    by blast
qed

text \<open>
  C3 on the spec's example: \<open>cat\<close> is looked up, \<open>dog\<close> fails, \<open>emu\<close> is never tried;
  and without \<open>dog\<close> both lookups succeed.
\<close>

theorem batch_stops_at_first_failure_witness:
  "session demo_collab True [''cat'', ''dog'', ''emu''] [] =
     Some (EXIT_FAILURE,
           [Process_phrase ''cat'' (Some True) True, Process_phrase ''dog'' (Some True) False],
           [])
   \<and> session demo_collab True [''cat'', ''emu''] [] =
     Some (EXIT_SUCCESS,
           [Process_phrase ''cat'' (Some True) True, Process_phrase ''emu'' (Some True) True],
           [])"
proof -
  have ne: "[''cat'', ''dog'', ''emu''] \<noteq> []" and ne': "[''cat'', ''emu''] \<noteq> []"
    by simp_all
  have pre: "served demo_collab True [] [''cat''] = Some []"
    by (simp add: demo_collab_def)
  have fail: "process_phrase demo_collab ''dog'' (Some True) [] = (False, [])"
    by (simp add: demo_collab_def)
  have ok: "served demo_collab True [] [''cat'', ''emu''] = Some []"
    by (simp add: demo_collab_def)
  from batch_stops_at_first_failure [OF ne, where C = demo_collab and ni = True and w = "[]"
      and pre = "[''cat'']" and q = "''dog''" and rest = "[''emu'']" and ?w1.0 = "[]"
      and ?w2.0 = "[]"] pre fail
  have one: "session demo_collab True [''cat'', ''dog'', ''emu''] [] =
     Some (EXIT_FAILURE,
           served_events True [''cat''] @ [Process_phrase ''dog'' (Some True) False], [])"
    by simp
  from batch_stops_at_first_failure [OF ne', where C = demo_collab and ni = True and w = "[]"
      and w' = "[]"] ok
  have two: "session demo_collab True [''cat'', ''emu''] [] =
     Some (EXIT_SUCCESS, served_events True [''cat'', ''emu''], [])"
    by simp
  from one two show ?thesis by (simp add: served_events_def)
qed

subsection \<open>C4: a name given with \<^verbatim>\<open>-u\<close> that is not in the catalog\<close>

text \<open>
  C4, as the claim has it, fails on one point: the failure does not name the absent
  dictionary. Two runs that differ only in the absent name end with the same exception
  and the same single line of output, the library's message for \<^verbatim>\<open>map::at\<close>, in which
  neither name occurs.
\<close>

theorem absent_name_not_named:
  "resolve_selection [(''X'', ''/s/x.ifo''), (''Y'', ''/s/y.ifo'')] (Some [''Oxford'']) None =
     Inl Std_out_of_range
   \<and> resolve_selection [(''X'', ''/s/x.ifo''), (''Y'', ''/s/y.ifo'')] (Some [''Collins'']) None =
     Inl Std_out_of_range
   \<and> main demo_collab demo_env
       (Parsed (demo_options\<lparr>use_dict_list := Some [''Oxford'']\<rparr>) [''cat'']) [] =
     Some (EXIT_FAILURE, [Stderr (''Internal error: map::at'' @ newline)], [])
   \<and> main demo_collab demo_env
       (Parsed (demo_options\<lparr>use_dict_list := Some [''Collins'']\<rparr>) [''cat'']) [] =
     Some (EXIT_FAILURE, [Stderr (''Internal error: map::at'' @ newline)], [])"
  by (simp add: demo_defs main_def resolve_selection_def internal_error_def)

text \<open>
  C4, amended. If some name given with \<^verbatim>\<open>-u\<close> is no key of the catalog, selection
  fails with the exception of \<^verbatim>\<open>map::at\<close> and yields no pair of lists; and a run of
  \<^verbatim>\<open>main\<close> that gets as far as selection prints \<open>Internal error:\<close> with the library's
  message, exits with failure, and leaves the collaborators as they were: the backend
  is not loaded, nothing is looked up, no line is read.
\<close>

theorem absent_name_aborts:
  assumes "\<not> set ps \<subseteq> fst ` set m"
  shows "resolve_selection m (Some ps) ordering_file = Inl Std_out_of_range
     \<and> (\<not> show_version opts \<and> \<not> show_list_dicts opts \<and> use_dict_list opts = Some ps
          \<and> build_catalog C (dicts_dir_list_of E opts) = m \<longrightarrow>
        main C E (Parsed opts words) w =
          Some (EXIT_FAILURE, [Stderr (internal_error (map_at_what E))], w))"
proof -
  from assms have "\<exists>p \<in> set ps. map_of m p = None"
    by (simp add: absent_iff)
  then have "resolve_selection m (Some ps) ordf = Inl Std_out_of_range" for ordf
    by (simp add: resolve_selection_def order_loop_some_absent)
  then show ?thesis
    by (auto simp: main_def)
qed

text \<open>C4, amended, on the small installation: \<open>X\<close> is there, \<open>Oxford\<close> is not.\<close>

theorem absent_name_aborts_witness:
  "\<not> set [''X'', ''Oxford''] \<subseteq> fst ` set [(''X'', ''/s/x.ifo''), (''Y'', ''/s/y.ifo'')]
   \<and> build_catalog demo_collab
        (dicts_dir_list_of demo_env (demo_options\<lparr>use_dict_list := Some [''X'', ''Oxford'']\<rparr>)) =
       [(''X'', ''/s/x.ifo''), (''Y'', ''/s/y.ifo'')]
   \<and> main demo_collab demo_env
        (Parsed (demo_options\<lparr>use_dict_list := Some [''X'', ''Oxford'']\<rparr>) [''cat'']) [''typed''] =
       Some (EXIT_FAILURE, [Stderr (internal_error ''map::at'')], [''typed''])"
  using absent_name_aborts [of "[''X'', ''Oxford'']" "[(''X'', ''/s/x.ifo''), (''Y'', ''/s/y.ifo'')]"
      None "demo_options\<lparr>use_dict_list := Some [''X'', ''Oxford'']\<rparr>" demo_collab demo_env
      "[''cat'']" "[''typed'']"]
  by (simp add: demo_defs)

subsection \<open>C5: interactive mode\<close>

text \<open>
  C5. With no word on the command line and without \<^verbatim>\<open>-n\<close>, suppose the reader yields
  the lines \<open>ls\<close> and each is looked up with success. If the reader then signals the
  end of input, the session ends with success, after one lookup per line read, and
  its last output is a newline. If instead the reader yields one more line and the
  lookup of it fails, the session ends at once with failure: no newline is printed
  and the reader is not asked again. Every line read is handed to the lookup, an
  empty one too.
\<close>

theorem interactive_session:
  assumes "feeds C w ls = Some w1"
  shows "(io_read C w1 = (None, w2) \<longrightarrow>
            session C False [] w =
              Some (EXIT_SUCCESS, fed_events ls @ [Io_read None, Stdout newline], w2))
       \<and> (io_read C w1 = (Some l, w2) \<and> process_phrase C l None w2 = (False, w3) \<longrightarrow>
            session C False [] w =
              Some (EXIT_FAILURE,
                    fed_events ls @ [Io_read (Some l), Process_phrase l None False], w3))"
proof -
  have run: "interactive_loop C [] w = interactive_loop C (fed_events ls) w1"
    using interactive_loop_feeds [OF assms, of "[]"] by simp
  have eof: "interactive_loop C (fed_events ls) w1 =
               Some (True, fed_events ls @ [Io_read None], w2)"
    if "io_read C w1 = (None, w2)"
    by (subst interactive_loop.simps) (simp add: that)
  have fail: "interactive_loop C (fed_events ls) w1 =
               Some (False, fed_events ls @ [Io_read (Some l), Process_phrase l None False], w3)"
    if "io_read C w1 = (Some l, w2)" "process_phrase C l None w2 = (False, w3)"
    by (subst interactive_loop.simps) (simp add: that)
  show ?thesis
    using eof fail by (auto simp: session_def run)
qed

text \<open>
  C5 on two terminals: one where \<open>cat\<close>, an empty line and \<open>emu\<close> are typed before
  the end of input, and one where \<open>dog\<close> is typed second, with \<open>emu\<close> still to come.
\<close>

theorem interactive_session_witness:
  "feeds demo_collab [''cat'', '''', ''emu''] [''cat'', '''', ''emu''] = Some []
   \<and> session demo_collab False [] [''cat'', '''', ''emu''] =
       Some (EXIT_SUCCESS,
             [Io_read (Some ''cat''), Process_phrase ''cat'' None True,
              Io_read (Some ''''), Process_phrase '''' None True,
              Io_read (Some ''emu''), Process_phrase ''emu'' None True,
              Io_read None, Stdout newline],
             [])
   \<and> feeds demo_collab [''cat'', ''dog'', ''emu''] [''cat''] = Some [''dog'', ''emu'']
   \<and> session demo_collab False [] [''cat'', ''dog'', ''emu''] =
       Some (EXIT_FAILURE,
             [Io_read (Some ''cat''), Process_phrase ''cat'' None True,
              Io_read (Some ''dog''), Process_phrase ''dog'' None False],
             [''emu''])"
  using
    interactive_session [of demo_collab "[''cat'', '''', ''emu'']" "[''cat'', '''', ''emu'']"
      "[]" "[]"]
    interactive_session [of demo_collab "[''cat'', ''dog'', ''emu'']" "[''cat'']"
      "[''dog'', ''emu'']" "[''emu'']" "''dog''" "[''emu'']"]
  by (simp add: demo_collab_def fed_events_def)

subsection \<open>C6: neither allow-list nor ordering file\<close>

text \<open>
  C6. Without \<^verbatim>\<open>-u\<close> and with an ordering file that does not open, selection gives
  two empty lists, whatever the catalog. With these two lists the dictionaries in use
  are all the entries of the catalog, in catalog order. A run of \<^verbatim>\<open>main\<close> that gets
  there loads the backend with exactly these two empty lists before the session
  starts.
\<close>

theorem no_selection_is_empty:
  "resolve_selection m None None = Inr ([], [])
   \<and> (\<forall>ol dl. resolve_selection m None None = Inr (ol, dl) \<longrightarrow>
         dictionaries_in_use m ol dl = map snd m)
   \<and> (\<not> show_version opts \<and> \<not> show_list_dicts opts \<and> use_dict_list opts = None
        \<and> fopen_lines E (odering_cfg_file E) = None \<longrightarrow>
      main C E (Parsed opts words) w =
        (let flags = (utf8_input opts, utf8_output opts, colorize opts);
             dirs = dicts_dir_list_of E opts
         in map_option
              (\<lambda>(status, tr, w'). (status, mkdir_events E @ Lib_load flags dirs [] [] # tr, w'))
              (session C (non_interactive opts) words (lib_load C flags dirs [] [] w))))"
proof -
  have sel: "resolve_selection m None None = Inr ([], [])"
    by (simp add: resolve_selection_def)
  have use: "dictionaries_in_use m [] [] = map snd m"
    by (simp add: dictionaries_in_use_def)
  have run: "main C E (Parsed opts words) w =
        (let flags = (utf8_input opts, utf8_output opts, colorize opts);
             dirs = dicts_dir_list_of E opts
         in map_option
              (\<lambda>(status, tr, w'). (status, mkdir_events E @ Lib_load flags dirs [] [] # tr, w'))
              (session C (non_interactive opts) words (lib_load C flags dirs [] [] w)))"
    if "\<not> show_version opts" "\<not> show_list_dicts opts" "use_dict_list opts = None"
      "fopen_lines E (odering_cfg_file E) = None"
    using that by (auto simp: resolve_selection_def main_def Let_def split: option.splits)
  from sel use run show ?thesis by simp
qed

text \<open>C6 on the small installation, which has no ordering file.\<close>

theorem no_selection_is_empty_witness:
  "resolve_selection demo_map None None = Inr ([], [])
   \<and> dictionaries_in_use demo_map [] [] = [''/a.ifo'', ''/b.ifo'', ''/c.ifo'']
   \<and> use_dict_list demo_options = None
   \<and> fopen_lines demo_env (odering_cfg_file demo_env) = None
   \<and> main demo_collab demo_env (Parsed demo_options [''cat'']) [] =
       Some (EXIT_SUCCESS,
             [Lib_load (False, False, False) [''/h/.stardict/dic'', ''/s''] [] [],
              Process_phrase ''cat'' (Some False) True],
             [])"
  using no_selection_is_empty [of demo_map demo_options demo_env demo_collab "[''cat'']" "[]"]
  by (simp add: demo_defs session_def dictionaries_in_use_def)

subsection \<open>C7: the two lists of a selection\<close>

text \<open>
  C7. The catalog is the one that lines 149 to 157 build from the directories, with
  a loader that records the file it was given as \<open>ifo_file_name\<close>. Whenever selection
  over it succeeds, no path is in both \<open>order_list\<close> and \<open>disable_list\<close>, and every
  path of \<open>order_list\<close> is the path of an entry of the catalog.
\<close>

theorem selection_disjoint:
  assumes "\<forall>f i. load_from_ifo_file C f = Some i \<longrightarrow> ifo_file_name i = f"
    and "resolve_selection (build_catalog C dirs_list) use ordering_file = Inr (ol, dl)"
  shows "set ol \<inter> set dl = {} \<and> set ol \<subseteq> snd ` set (build_catalog C dirs_list)"
  using resolved_lists_apart [OF assms(2)] built_catalog_paths_distinct [OF assms(1)]
  by blast

text \<open>C7 on the small installation, where \<open>Y\<close> is selected.\<close>

theorem selection_disjoint_witness:
  "resolve_selection (build_catalog demo_collab [''/h/.stardict/dic'', ''/s''])
     (Some [''Y'']) None = Inr ([''/s/y.ifo''], [''/s/x.ifo''])
   \<and> set [''/s/y.ifo''] \<inter> set [''/s/x.ifo''] = ({} :: string set)
   \<and> set [''/s/y.ifo''] \<subseteq> snd ` set (build_catalog demo_collab [''/h/.stardict/dic'', ''/s''])"
proof -
  have own: "\<forall>f i. load_from_ifo_file demo_collab f = Some i \<longrightarrow> ifo_file_name i = f"
    by (auto simp: demo_collab_def split: if_splits)
  have r: "resolve_selection (build_catalog demo_collab [''/h/.stardict/dic'', ''/s''])
             (Some [''Y'']) None = Inr ([''/s/y.ifo''], [''/s/x.ifo''])"
    by (simp add: demo_defs resolve_selection_def)
  from selection_disjoint [OF own r] r show ?thesis by simp
qed

subsection \<open>C8: building the catalog\<close>

text \<open>
  C8. The catalog built from the directories is a map with one entry per bookname.
  Looking a bookname up gives the path recorded for the last visited file that loads
  under that bookname, and throws when no visited file does; a file that does not
  load changes nothing and the build goes on after it. With two directories, a
  bookname found in the second directory gets the second directory's path, whatever
  the first holds.
\<close>

theorem catalog_last_wins:
  "std_map_wf (build_catalog C dirs_list)
   \<and> map_at (build_catalog C dirs_list) n =
       (if hits C n (visited C dirs_list) = [] then Inl Std_out_of_range
        else Inr (ifo_file_name (last (hits C n (visited C dirs_list)))))
   \<and> (hits C n (visited C [d2]) \<noteq> [] \<longrightarrow>
        map_at (build_catalog C [d1, d2]) n =
          Inr (ifo_file_name (last (hits C n (visited C [d2])))))"
proof -
  have at: "map_at (build_catalog C ds) n =
       (if hits C n (visited C ds) = [] then Inl Std_out_of_range
        else Inr (ifo_file_name (last (hits C n (visited C ds)))))" for ds
    by (simp add: map_at_eq build_catalog_fold map_of_fold_callback)
  have two: "visited C [d1, d2] = visited C [d1] @ visited C [d2]"
    by (simp add: visited_eq)
  have "map_at (build_catalog C [d1, d2]) n =
          Inr (ifo_file_name (last (hits C n (visited C [d2]))))"
    if "hits C n (visited C [d2]) \<noteq> []"
    using that by (simp add: at two hits_append)
  with wf_build_catalog at show ?thesis by blast
qed

text \<open>
  C8 on the small installation: both directories hold an \<open>X\<close>, and the first also a
  file that does not load.
\<close>

theorem catalog_last_wins_witness:
  "visited demo_collab [''/h/.stardict/dic'', ''/s''] =
     [''/h/.stardict/dic/x.ifo'', ''/h/.stardict/dic/bad.ifo'', ''/s/x.ifo'', ''/s/y.ifo'']
   \<and> load_from_ifo_file demo_collab ''/h/.stardict/dic/bad.ifo'' = None
   \<and> map (ifo_file_name) (hits demo_collab ''X'' (visited demo_collab [''/h/.stardict/dic'']))
       = [''/h/.stardict/dic/x.ifo'']
   \<and> hits demo_collab ''X'' (visited demo_collab [''/s'']) \<noteq> []
   \<and> map_at (build_catalog demo_collab [''/h/.stardict/dic'', ''/s'']) ''X'' = Inr ''/s/x.ifo''
   \<and> build_catalog demo_collab [''/h/.stardict/dic'', ''/s''] =
       [(''X'', ''/s/x.ifo''), (''Y'', ''/s/y.ifo'')]"
  using catalog_last_wins [of demo_collab "[''/h/.stardict/dic'', ''/s'']" "''X''"
      "''/s''" "''/h/.stardict/dic''"]
  by (simp add: demo_defs visited_eq hits_def)

subsection \<open>C9: \<^verbatim>\<open>-n\<close> without words\<close>

text \<open>
  C9. With \<^verbatim>\<open>-n\<close> and no word, the session looks nothing up and reads nothing: it
  writes the line \<open>There are no words/phrases to translate.\<close> to the error stream
  and ends with success. A run of \<^verbatim>\<open>main\<close> whose selection succeeds ends with that
  line and success, and none of its events is a lookup.
\<close>

theorem nothing_to_translate:
  "session C True [] w = Some (EXIT_SUCCESS, [Stderr no_words], w)
   \<and> (\<not> show_version opts \<and> \<not> show_list_dicts opts \<and> non_interactive opts
        \<and> resolve_selection (build_catalog C (dicts_dir_list_of E opts)) (use_dict_list opts)
             (fopen_lines E (odering_cfg_file E)) = Inr (ol, dl) \<longrightarrow>
      (\<exists>tr w'. main C E (Parsed opts []) w = Some (EXIT_SUCCESS, tr @ [Stderr no_words], w')
         \<and> (\<forall>q f r. Process_phrase q f r \<notin> set tr)))"
proof -
  have s: "session C True [] v = Some (EXIT_SUCCESS, [Stderr no_words], v)" for v
    by (simp add: session_def)
  let ?flags = "(utf8_input opts, utf8_output opts, colorize opts)"
  let ?pre = "mkdir_events E @ [Lib_load ?flags (dicts_dir_list_of E opts) ol dl]"
  have "main C E (Parsed opts []) w =
          Some (EXIT_SUCCESS, ?pre @ [Stderr no_words],
                lib_load C ?flags (dicts_dir_list_of E opts) ol dl w)
        \<and> (\<forall>q f r. Process_phrase q f r \<notin> set ?pre)"
    if "\<not> show_version opts" "\<not> show_list_dicts opts" "non_interactive opts"
      "resolve_selection (build_catalog C (dicts_dir_list_of E opts)) (use_dict_list opts)
         (fopen_lines E (odering_cfg_file E)) = Inr (ol, dl)"
    using that by (simp add: main_def s Let_def mkdir_events_no_lookup)
  with s show ?thesis by blast
qed

text \<open>C9 on the small installation, with \<^verbatim>\<open>-n -u Y\<close> and no word.\<close>

theorem nothing_to_translate_witness:
  "resolve_selection (build_catalog demo_collab (dicts_dir_list_of demo_env demo_options))
     (Some [''Y'']) (fopen_lines demo_env (odering_cfg_file demo_env)) =
     Inr ([''/s/y.ifo''], [''/s/x.ifo''])
   \<and> main demo_collab demo_env
       (Parsed (demo_options\<lparr>use_dict_list := Some [''Y''], non_interactive := True\<rparr>) [])
       [''typed''] =
     Some (EXIT_SUCCESS,
           [Lib_load (False, False, False) [''/h/.stardict/dic'', ''/s''] [''/s/y.ifo''] [''/s/x.ifo''],
            Stderr (''There are no words/phrases to translate.'' @ newline)],
           [''typed''])"
  using nothing_to_translate [of demo_collab "[''typed'']"
      "demo_options\<lparr>use_dict_list := Some [''Y''], non_interactive := True\<rparr>" demo_env
      "[''/s/y.ifo'']" "[''/s/x.ifo'']"]
  by (simp add: demo_defs main_def resolve_selection_def session_def no_words_def)

subsection \<open>C10: the version flag\<close>

text \<open>
  C10. When the command line parses and the version flag is set, the run prints the
  version line and nothing else, exits with success, and leaves the state of the
  collaborators as it was, whatever the other options and the words are. The result
  mentions neither the collaborators nor the file system: no catalog is built, no
  listing is printed, no selection is made, no backend is loaded and no word is
  looked up.
\<close>

theorem version_first:
  "show_version opts \<Longrightarrow>
   main C E (Parsed opts words) w =
     Some (EXIT_SUCCESS, [Stdout (version_line (gVersion E))], w)"
  by (simp add: main_def)

text \<open>
  C10 with the listing flag, a selector naming an absent dictionary and a word, all
  next to the version flag.
\<close>

theorem version_first_witness:
  "show_version (demo_options\<lparr>show_version := True, show_list_dicts := True,
                   use_dict_list := Some [''Oxford'']\<rparr>)
   \<and> main demo_collab demo_env
       (Parsed (demo_options\<lparr>show_version := True, show_list_dicts := True,
                  use_dict_list := Some [''Oxford'']\<rparr>) [''cat''])
       [''typed''] =
     Some (EXIT_SUCCESS,
           [Stdout (''Console version of Stardict, version 0.5.2'' @ newline)],
           [''typed''])"
  using version_first [of "demo_options\<lparr>show_version := True, show_list_dicts := True,
      use_dict_list := Some [''Oxford'']\<rparr>" demo_collab demo_env "[''cat'']" "[''typed'']"]
  by (simp add: demo_defs version_line_def)

end
